theory Spec2Isabelle
  imports Main
begin

section \<open>Python strings and the built-ins the resolver uses\<close>

text \<open>
  A Python \<open>str\<close> is a sequence of code points. The model works with reference strings
  over the code points 0..255: a \<^typ>\<open>char\<close> stands for one code point, so
  \<^const>\<open>length\<close> is Python's \<open>len\<close>. On that range Python's \<open>str.isdecimal\<close>
  characters are \<open>0\<close>..\<open>9\<close>, and \<open>str.isdigit\<close> accepts, beside them, the
  superscript digits U+00B2, U+00B3 and U+00B9, which \<open>int()\<close> rejects.
\<close>

definition isdecimal_char :: "char \<Rightarrow> bool" where
  "isdecimal_char c = (48 \<le> (of_char c :: nat) \<and> (of_char c :: nat) \<le> 57)"

definition isdigit_char :: "char \<Rightarrow> bool" where
  "isdigit_char c = (isdecimal_char c \<or> c = CHR 0xB2 \<or> c = CHR 0xB3 \<or> c = CHR 0xB9)"

text \<open>\<open>str.isdigit()\<close>: every character is a digit and there is at least one character.\<close>

definition isdigit :: "string \<Rightarrow> bool" where
  "isdigit s = (s \<noteq> [] \<and> list_all isdigit_char s)"

datatype exn =
    SystemExit string
  | ValueError string
  | LibraryError string

definition digit_value :: "char \<Rightarrow> nat" where
  "digit_value c = of_char c - 48"

text \<open>
  \<open>int(s)\<close>, for the arguments the source passes: strings on which \<open>isdigit\<close> holds.
  A character that is a digit but not a decimal raises \<open>ValueError\<close>; the exception
  carries the rejected literal.
\<close>

definition int_py :: "string \<Rightarrow> exn + nat" where
  "int_py s =
     (if s \<noteq> [] \<and> list_all isdecimal_char s
      then Inr (foldl (\<lambda>n c. 10 * n + digit_value c) 0 s)
      else Inl (ValueError s))"

text \<open>\<open>str(n)\<close> for a non-negative integer, as the f-strings format it.\<close>

fun str_nat :: "nat \<Rightarrow> string" where
  "str_nat n =
     (if n < 10 then [char_of (48 + n)]
      else str_nat (n div 10) @ [char_of (48 + n mod 10)])"

declare str_nat.simps [simp del]

text \<open>\<open>max(...)\<close> over the values a generator has produced.\<close>

definition max_py :: "nat list \<Rightarrow> exn + nat" where
  "max_py vs =
     (case vs of
        [] \<Rightarrow> Inl (ValueError ''max() arg is an empty sequence'')
      | v # rest \<Rightarrow> Inr (foldl max v rest))"

section \<open>The mail collaborator\<close>

text \<open>
  The \<open>protonmail\<close> library is external. A run records every call it makes to the
  library, in order; the library's answer to a call may depend on all the calls made
  before it. Whatever the library raises reaches the command as a \<open>LibraryError\<close> with
  the library's text. Only the \<open>id\<close> attribute of a listed message is read by the code
  modelled here.
\<close>

record message =
  message_id :: string

datatype call =
    Load_session
  | Get_messages nat string
  | Read_message string bool
  | Delete_messages "string list"
  | Set_label_for_messages string "string list"
  | Unset_label_for_messages string "string list"
  | Mark_messages_as_unread "string list"

datatype reply = Returns "message list" | Raises string

record env =
  session_file_exists :: bool
  respond :: "call list \<Rightarrow> call \<Rightarrow> reply"

definition invoke :: "env \<Rightarrow> call \<Rightarrow> call list \<Rightarrow> reply \<times> call list" where
  "invoke E c tr = (respond E tr c, tr @ [c])"

fun is_mutation :: "call \<Rightarrow> bool" where
  "is_mutation (Delete_messages ids) = True"
| "is_mutation (Set_label_for_messages l ids) = True"
| "is_mutation (Unset_label_for_messages l ids) = True"
| "is_mutation (Mark_messages_as_unread ids) = True"
| "is_mutation c = False"

section \<open>formatting.py\<close>

definition SYSTEM_LABELS :: "string \<rightharpoonup> string" where
  "SYSTEM_LABELS = map_of
     [(''0'', ''Inbox''),
      (''1'', ''Drafts''),
      (''2'', ''Sent''),
      (''3'', ''Starred''),
      (''4'', ''Archive''),
      (''5'', ''All Mail''),
      (''6'', ''Spam''),
      (''7'', ''Trash''),
      (''8'', ''Draft-Sent''),
      (''10'', ''Scheduled'')]"

section \<open>config.py\<close>

text \<open>
  \<open>get_client\<close>: exits when there is no session file, otherwise builds the client and
  loads the saved session (one library call, which may raise).
\<close>

definition get_client :: "env \<Rightarrow> call list \<Rightarrow> (exn + unit) \<times> call list" where
  "get_client E tr =
     (if \<not> session_file_exists E
      then (Inl (SystemExit ''Not logged in. Run: pmail login''), tr)
      else (case invoke E Load_session tr of
              (Raises m, tr') \<Rightarrow> (Inl (LibraryError m), tr')
            | (Returns ms, tr') \<Rightarrow> (Inr (), tr')))"

section \<open>cli.py\<close>

definition FOLDER_ALIASES :: "string \<rightharpoonup> string" where
  "FOLDER_ALIASES = map_of
     [(''inbox'', ''0''),
      (''drafts'', ''1''),
      (''sent'', ''2''),
      (''starred'', ''3''),
      (''archive'', ''4''),
      (''all'', ''5''),
      (''spam'', ''6''),
      (''trash'', ''7'')]"

subsection \<open>The batch resolver\<close>

text \<open>
  The test \<open>ref.isdigit() and len(ref) <= 4\<close>, which the source writes out wherever it
  decides whether a reference is an inbox index (in \<open>read\<close>, \<open>reply\<close>, \<open>forward\<close>,
  \<open>download\<close> and twice in \<open>_resolve_refs\<close>).
\<close>

definition index_like :: "string \<Rightarrow> bool" where
  "index_like ref = (isdigit ref \<and> length ref \<le> 4)"

text \<open>
  The generator \<open>int(r) for r in refs if r.isdigit() and len(r) <= 4\<close>: the values in
  order, or the first \<open>ValueError\<close>.
\<close>

fun index_values :: "string list \<Rightarrow> exn + nat list" where
  "index_values [] = Inr []"
| "index_values (r # rs) =
     (if index_like r then
        (case int_py r of
           Inl e \<Rightarrow> Inl e
         | Inr v \<Rightarrow> (case index_values rs of Inl e \<Rightarrow> Inl e | Inr vs \<Rightarrow> Inr (v # vs)))
      else index_values rs)"

text \<open>
  The body of \<open>if inbox_cache is None\<close>: the maximum index of the whole batch, then one
  listing of the inbox (label \<open>"0"\<close>) with that page size plus one. A filled cache is
  returned as it is.
\<close>

definition fill_inbox_cache ::
  "env \<Rightarrow> string list \<Rightarrow> message list option \<Rightarrow> call list \<Rightarrow> (exn + message list) \<times> call list"
where
  "fill_inbox_cache E refs inbox_cache tr =
     (case inbox_cache of
        Some inbox \<Rightarrow> (Inr inbox, tr)
      | None \<Rightarrow>
          (case index_values refs of
             Inl e \<Rightarrow> (Inl e, tr)
           | Inr vs \<Rightarrow>
               (case max_py vs of
                  Inl e \<Rightarrow> (Inl e, tr)
                | Inr max_idx \<Rightarrow>
                    (case invoke E (Get_messages (max_idx + 1) ''0'') tr of
                       (Raises m, tr') \<Rightarrow> (Inl (LibraryError m), tr')
                     | (Returns inbox, tr') \<Rightarrow> (Inr inbox, tr')))))"

text \<open>
  The loop \<open>for ref in refs\<close> of \<open>_resolve_refs\<close>, from the references still to visit,
  the cache, the identifiers collected so far and the calls made so far.
\<close>

fun resolve_loop ::
  "env \<Rightarrow> string list \<Rightarrow> string list \<Rightarrow> message list option \<Rightarrow> string list \<Rightarrow> call list
     \<Rightarrow> (exn + string list) \<times> call list"
where
  "resolve_loop E refs [] inbox_cache ids tr = (Inr ids, tr)"
| "resolve_loop E refs (ref # rest) inbox_cache ids tr =
     (if index_like ref then
        (case int_py ref of
           Inl e \<Rightarrow> (Inl e, tr)
         | Inr idx \<Rightarrow>
             (case fill_inbox_cache E refs inbox_cache tr of
                (Inl e, tr') \<Rightarrow> (Inl e, tr')
              | (Inr inbox, tr') \<Rightarrow>
                  if idx \<ge> length inbox
                  then (Inl (SystemExit (''Index '' @ str_nat idx @ '' out of range'')), tr')
                  else resolve_loop E refs rest (Some inbox)
                         (ids @ [message_id (inbox ! idx)]) tr'))
      else resolve_loop E refs rest inbox_cache (ids @ [ref]) tr)"

definition resolve_refs ::
  "env \<Rightarrow> string list \<Rightarrow> call list \<Rightarrow> (exn + string list) \<times> call list"
where
  "resolve_refs E refs tr = resolve_loop E refs refs None [] tr"

subsection \<open>The single-reference resolution of \<open>read\<close>\<close>

text \<open>
  Lines 128 to 135 of \<open>read\<close>: the message identifier that is then passed to
  \<open>read_message\<close>.
\<close>

definition read_msg_id :: "env \<Rightarrow> string \<Rightarrow> call list \<Rightarrow> (exn + string) \<times> call list" where
  "read_msg_id E message_ref tr =
     (if index_like message_ref then
        (case int_py message_ref of
           Inl e \<Rightarrow> (Inl e, tr)
         | Inr idx \<Rightarrow>
             (case invoke E (Get_messages (idx + 1) ''0'') tr of
                (Raises m, tr') \<Rightarrow> (Inl (LibraryError m), tr')
              | (Returns messages, tr') \<Rightarrow>
                  if idx \<ge> length messages
                  then (Inl (SystemExit (''Index '' @ str_nat idx @ '' out of range (have ''
                               @ str_nat (length messages) @ '' messages)'')), tr')
                  else (Inr (message_id (messages ! idx)), tr')))
      else (Inr message_ref, tr))"

subsection \<open>The action commands\<close>

text \<open>
  Each command returns the line it prints, or the exception that ends it, and the calls
  made. \<open>then_call\<close> makes one library call whose result is discarded and goes on.
\<close>

definition then_call ::
  "env \<Rightarrow> call \<Rightarrow> call list \<Rightarrow> (call list \<Rightarrow> (exn + 'a) \<times> call list) \<Rightarrow> (exn + 'a) \<times> call list"
where
  "then_call E c tr k =
     (case invoke E c tr of
        (Raises m, tr') \<Rightarrow> (Inl (LibraryError m), tr')
      | (Returns ms, tr') \<Rightarrow> k tr')"

definition with_resolved ::
  "env \<Rightarrow> string list \<Rightarrow> call list \<Rightarrow> (string list \<Rightarrow> call list \<Rightarrow> (exn + 'a) \<times> call list)
     \<Rightarrow> (exn + 'a) \<times> call list"
where
  "with_resolved E message_refs tr k =
     (case get_client E tr of
        (Inl e, tr1) \<Rightarrow> (Inl e, tr1)
      | (Inr u, tr1) \<Rightarrow>
          (case resolve_refs E message_refs tr1 of
             (Inl e, tr2) \<Rightarrow> (Inl e, tr2)
           | (Inr ids, tr2) \<Rightarrow> k ids tr2))"

definition delete :: "env \<Rightarrow> string list \<Rightarrow> call list \<Rightarrow> (exn + string) \<times> call list" where
  "delete E message_refs tr =
     with_resolved E message_refs tr (\<lambda>ids tr2.
       then_call E (Delete_messages ids) tr2 (\<lambda>tr3.
         (Inr (''[green]Deleted '' @ str_nat (length ids) @ '' message(s).[/]''), tr3)))"

definition archive :: "env \<Rightarrow> string list \<Rightarrow> call list \<Rightarrow> (exn + string) \<times> call list" where
  "archive E message_refs tr =
     with_resolved E message_refs tr (\<lambda>ids tr2.
       then_call E (Set_label_for_messages ''4'' ids) tr2 (\<lambda>tr3.
         then_call E (Unset_label_for_messages ''0'' ids) tr3 (\<lambda>tr4.
           (Inr (''[green]Archived '' @ str_nat (length ids) @ '' message(s).[/]''), tr4))))"

definition spam :: "env \<Rightarrow> string list \<Rightarrow> call list \<Rightarrow> (exn + string) \<times> call list" where
  "spam E message_refs tr =
     with_resolved E message_refs tr (\<lambda>ids tr2.
       then_call E (Set_label_for_messages ''6'' ids) tr2 (\<lambda>tr3.
         then_call E (Unset_label_for_messages ''0'' ids) tr3 (\<lambda>tr4.
           (Inr (''[green]Marked '' @ str_nat (length ids) @ '' message(s) as spam.[/]''), tr4))))"

definition star :: "env \<Rightarrow> string list \<Rightarrow> call list \<Rightarrow> (exn + string) \<times> call list" where
  "star E message_refs tr =
     with_resolved E message_refs tr (\<lambda>ids tr2.
       then_call E (Set_label_for_messages ''10'' ids) tr2 (\<lambda>tr3.
         (Inr (''[green]Starred '' @ str_nat (length ids) @ '' message(s).[/]''), tr3)))"

definition unread :: "env \<Rightarrow> string list \<Rightarrow> call list \<Rightarrow> (exn + string) \<times> call list" where
  "unread E message_refs tr =
     with_resolved E message_refs tr (\<lambda>ids tr2.
       then_call E (Mark_messages_as_unread ids) tr2 (\<lambda>tr3.
         (Inr (''[green]Marked '' @ str_nat (length ids) @ '' message(s) as unread.[/]''), tr3)))"

section \<open>Reading the results\<close>

text \<open>
  What a reference resolves to against a given inbox listing: an index-like reference
  to the identifier at its position, when it converts and is in range; any other
  reference to itself.
\<close>

definition lookup_ref :: "message list \<Rightarrow> string \<Rightarrow> string option" where
  "lookup_ref inbox r =
     (if index_like r then
        (case int_py r of
           Inl e \<Rightarrow> None
         | Inr idx \<Rightarrow> if idx < length inbox then Some (message_id (inbox ! idx)) else None)
      else Some r)"

text \<open>Whether a run ended in \<open>SystemExit\<close>.\<close>

fun exits :: "exn + 'a \<Rightarrow> bool" where
  "exits (Inl (SystemExit m)) = True"
| "exits r = False"

text \<open>The five action commands of the command group.\<close>

datatype action = Delete | Archive | Spam | Star | Unread

fun action_command ::
  "action \<Rightarrow> env \<Rightarrow> string list \<Rightarrow> call list \<Rightarrow> (exn + string) \<times> call list"
where
  "action_command Delete = delete"
| "action_command Archive = archive"
| "action_command Spam = spam"
| "action_command Star = star"
| "action_command Unread = unread"

text \<open>A reference string none of whose characters is a digit that is not a decimal.\<close>

definition no_special_digit :: "string \<Rightarrow> bool" where
  "no_special_digit s = list_all (\<lambda>c. isdigit_char c = isdecimal_char c) s"

subsection \<open>Sample collaborators\<close>

text \<open>
  A logged-in collaborator over a fixed inbox: a listing returns the first \<open>page_size\<close>
  messages, every other call returns, except the calls picked out by \<open>bad\<close>, which raise.
\<close>

definition snapshot4 :: "message list" where
  "snapshot4 =
     [\<lparr>message_id = ''idA''\<rparr>, \<lparr>message_id = ''idB''\<rparr>,
      \<lparr>message_id = ''idC''\<rparr>, \<lparr>message_id = ''idD''\<rparr>]"

definition mailbox_failing :: "(call \<Rightarrow> bool) \<Rightarrow> message list \<Rightarrow> env" where
  "mailbox_failing bad inbox =
     \<lparr>session_file_exists = True,
      respond = (\<lambda>tr c.
        if bad c then Raises ''boom''
        else (case c of Get_messages n l \<Rightarrow> Returns (take n inbox) | _ \<Rightarrow> Returns []))\<rparr>"

definition mailbox :: "message list \<Rightarrow> env" where
  "mailbox inbox = mailbox_failing (\<lambda>c. False) inbox"

fun is_set_label :: "call \<Rightarrow> bool" where
  "is_set_label (Set_label_for_messages l ids) = True"
| "is_set_label c = False"

fun is_unset_label :: "call \<Rightarrow> bool" where
  "is_unset_label (Unset_label_for_messages l ids) = True"
| "is_unset_label c = False"

section \<open>The resolver's loop\<close>

lemma fill_inbox_cache_Some [simp]:
  "fill_inbox_cache E refs (Some inbox) tr = (Inr inbox, tr)"
  by (simp add: fill_inbox_cache_def)

lemma resolve_loop_cached_trace:
  "snd (resolve_loop E refs rest (Some inbox) ids tr) = tr"
  by (induction rest arbitrary: ids) (auto split: sum.splits)

lemma resolve_loop_cached_success:
  "resolve_loop E refs rest (Some inbox) ids tr = (Inr out, tr') \<Longrightarrow>
     tr' = tr \<and> (\<exists>new. out = ids @ new \<and> map (lookup_ref inbox) rest = map Some new)"
proof (induction rest arbitrary: ids)
  case Nil
  then show ?case by simp
next
  case (Cons r rest)
  show ?case
  proof (cases "index_like r")
    case False
    with Cons.prems have "resolve_loop E refs rest (Some inbox) (ids @ [r]) tr = (Inr out, tr')"
      by simp
    from Cons.IH [OF this] obtain new where
      "tr' = tr" "out = (ids @ [r]) @ new" "map (lookup_ref inbox) rest = map Some new"
      by blast
    with False have "out = ids @ (r # new) \<and> map (lookup_ref inbox) (r # rest) = map Some (r # new)"
      by (simp add: lookup_ref_def)
    with \<open>tr' = tr\<close> show ?thesis by blast
  next
    case True
    with Cons.prems obtain idx where
      idx: "int_py r = Inr idx" "idx < length inbox"
      and rec: "resolve_loop E refs rest (Some inbox) (ids @ [message_id (inbox ! idx)]) tr = (Inr out, tr')"
      by (auto split: sum.splits if_splits)
    from Cons.IH [OF rec] obtain new where
      "tr' = tr" "out = (ids @ [message_id (inbox ! idx)]) @ new"
      "map (lookup_ref inbox) rest = map Some new"
      by blast
    with True idx have "out = ids @ (message_id (inbox ! idx) # new)
        \<and> map (lookup_ref inbox) (r # rest) = map Some (message_id (inbox ! idx) # new)"
      by (simp add: lookup_ref_def)
    with \<open>tr' = tr\<close> show ?thesis by blast
  qed
qed

lemma resolve_loop_no_index:
  "filter index_like rest = [] \<Longrightarrow> resolve_loop E refs rest cache ids tr = (Inr (ids @ rest), tr)"
  by (induction rest arbitrary: ids) (auto split: if_splits)

lemma resolve_loop_uncached_success:
  "resolve_loop E refs rest None ids tr = (Inr out, tr') \<Longrightarrow>
     (filter index_like rest = [] \<and> out = ids @ rest \<and> tr' = tr) \<or>
     (\<exists>n inbox new. respond E tr (Get_messages n ''0'') = Returns inbox
        \<and> tr' = tr @ [Get_messages n ''0'']
        \<and> out = ids @ new \<and> map (lookup_ref inbox) rest = map Some new)"
proof (induction rest arbitrary: ids)
  case Nil
  then show ?case by simp
next
  case (Cons r rest)
  show ?case
  proof (cases "index_like r")
    case False
    with Cons.prems have rec: "resolve_loop E refs rest None (ids @ [r]) tr = (Inr out, tr')"
      by simp
    from Cons.IH [OF rec] show ?thesis
    proof
      assume "filter index_like rest = [] \<and> out = (ids @ [r]) @ rest \<and> tr' = tr"
      with False show ?thesis by simp
    next
      assume "\<exists>n inbox new. respond E tr (Get_messages n ''0'') = Returns inbox
        \<and> tr' = tr @ [Get_messages n ''0'']
        \<and> out = (ids @ [r]) @ new \<and> map (lookup_ref inbox) rest = map Some new"
      then obtain n inbox new where h: "respond E tr (Get_messages n ''0'') = Returns inbox"
        "tr' = tr @ [Get_messages n ''0'']" "out = (ids @ [r]) @ new"
        "map (lookup_ref inbox) rest = map Some new"
        by blast
      with False have "out = ids @ (r # new) \<and> map (lookup_ref inbox) (r # rest) = map Some (r # new)"
        by (simp add: lookup_ref_def)
      with h(1,2) show ?thesis by blast
    qed
  next
    case True
    with Cons.prems obtain idx inbox tr1 where
      idx: "int_py r = Inr idx" "\<not> length inbox \<le> idx"
      and fill: "fill_inbox_cache E refs None tr = (Inr inbox, tr1)"
      and rec: "resolve_loop E refs rest (Some inbox) (ids @ [message_id (inbox ! idx)]) tr1 = (Inr out, tr')"
      by (auto split: sum.splits if_splits prod.splits)
    from fill obtain n where n: "respond E tr (Get_messages n ''0'') = Returns inbox"
      "tr1 = tr @ [Get_messages n ''0'']"
      by (auto simp: fill_inbox_cache_def invoke_def split: sum.splits reply.splits)
    from resolve_loop_cached_success [OF rec] obtain new where
      "tr' = tr1" "out = (ids @ [message_id (inbox ! idx)]) @ new"
      "map (lookup_ref inbox) rest = map Some new"
      by blast
    with True idx n have "respond E tr (Get_messages n ''0'') = Returns inbox
        \<and> tr' = tr @ [Get_messages n ''0'']
        \<and> out = ids @ (message_id (inbox ! idx) # new)
        \<and> map (lookup_ref inbox) (r # rest) = map Some (message_id (inbox ! idx) # new)"
      by (simp add: lookup_ref_def)
    then show ?thesis by blast
  qed
qed

lemma fill_inbox_cache_trace:
  "\<exists>ext. snd (fill_inbox_cache E refs None tr) = tr @ ext
      \<and> (ext = [] \<or> (\<exists>n. ext = [Get_messages n ''0'']))"
  by (auto simp: fill_inbox_cache_def invoke_def split: sum.splits reply.splits)

lemma resolve_loop_trace:
  "\<exists>ext. snd (resolve_loop E refs rest cache ids tr) = tr @ ext
      \<and> (ext = [] \<or> (\<exists>n. ext = [Get_messages n ''0'']))"
proof (induction rest arbitrary: ids)
  case Nil
  then show ?case by simp
next
  case (Cons r rest)
  show ?case
  proof (cases cache)
    case (Some inbox)
    then show ?thesis using resolve_loop_cached_trace [of E refs "r # rest" inbox ids tr] by simp
  next
    case None
    show ?thesis
    proof (cases "index_like r")
      case False
      then show ?thesis using Cons.IH [of "ids @ [r]"] by simp
    next
      case True
      show ?thesis
        using True None fill_inbox_cache_trace [of E refs tr] resolve_loop_cached_trace [of E refs rest]
        by (auto split: sum.splits prod.splits)
    qed
  qed
qed

section \<open>The empty reference\<close>

text \<open>
  Claim C9. The empty string satisfies the wording "only decimal digits, length at most
  4" vacuously, yet the resolver's test rejects it: it is emitted unchanged, whatever
  the collaborator would answer, without a fetch; in a batch it adds nothing to the
  index values from which the page size is computed and leaves the cache and the calls
  as they are.
\<close>

theorem empty_reference_is_durable_id:
  "(list_all isdecimal_char '''' \<and> length '''' \<le> 4)
     \<and> \<not> index_like ''''
     \<and> resolve_refs E [''''] tr = (Inr [''''], tr)
     \<and> index_values ('''' # refs) = index_values refs
     \<and> resolve_loop E refs ('''' # rest) cache ids tr
         = resolve_loop E refs rest cache (ids @ ['''']) tr"
  by (simp add: index_like_def isdigit_def resolve_refs_def)

section \<open>The single-reference path of \<open>read\<close> against the batch resolver\<close>

lemma fill_inbox_cache_singleton:
  "index_like ref \<Longrightarrow> int_py ref = Inr idx \<Longrightarrow>
     fill_inbox_cache E [ref] None tr =
       (case respond E tr (Get_messages (idx + 1) ''0'') of
          Raises m \<Rightarrow> (Inl (LibraryError m), tr @ [Get_messages (idx + 1) ''0''])
        | Returns inbox \<Rightarrow> (Inr inbox, tr @ [Get_messages (idx + 1) ''0'']))"
  by (simp add: fill_inbox_cache_def max_py_def invoke_def split: reply.splits)

lemma resolve_refs_singleton:
  "resolve_refs E [ref] tr =
     (case read_msg_id E ref tr of
        (Inr i, tr') \<Rightarrow> (Inr [i], tr')
      | (Inl e, tr') \<Rightarrow>
          (case (e, int_py ref) of
             (SystemExit m, Inr idx) \<Rightarrow>
               (Inl (SystemExit (''Index '' @ str_nat idx @ '' out of range'')), tr')
           | _ \<Rightarrow> (Inl e, tr')))"
proof (cases "index_like ref")
  case False
  then show ?thesis by (simp add: resolve_refs_def read_msg_id_def)
next
  case True
  show ?thesis
  proof (cases "int_py ref")
    case (Inl e)
    with True show ?thesis
      by (auto simp: resolve_refs_def read_msg_id_def int_py_def split: if_splits)
  next
    case (Inr idx)
    with True show ?thesis
      by (simp add: resolve_refs_def read_msg_id_def invoke_def fill_inbox_cache_singleton
          split: reply.splits exn.splits)
  qed
qed

text \<open>
  Claim C10. For every collaborator and every reference string, the inline resolution of
  \<open>read\<close> and \<open>_resolve_refs\<close> on the one-element batch make the same calls, return the
  same identifier (the batch resolver as a one-element list), end in an out-of-range
  \<open>SystemExit\<close> in exactly the same runs, and otherwise fail with the same exception.
\<close>

theorem read_refines_batch_singleton:
  "snd (read_msg_id E ref tr) = snd (resolve_refs E [ref] tr)
     \<and> (\<forall>i. (fst (read_msg_id E ref tr) = Inr i) = (fst (resolve_refs E [ref] tr) = Inr [i]))
     \<and> exits (fst (read_msg_id E ref tr)) = exits (fst (resolve_refs E [ref] tr))
     \<and> (exits (fst (read_msg_id E ref tr))
          \<or> fst (resolve_refs E [ref] tr) = map_sum id (\<lambda>i. [i]) (fst (read_msg_id E ref tr)))"
  unfolding resolve_refs_singleton
  by (auto split: prod.splits sum.splits exn.splits)

theorem read_refines_batch_singleton_witness:
  "snd (read_msg_id (mailbox snapshot4) ''2'' []) = snd (resolve_refs (mailbox snapshot4) [''2''] [])
     \<and> fst (read_msg_id (mailbox snapshot4) ''2'' []) = Inr ''idC''
     \<and> fst (resolve_refs (mailbox snapshot4) [''2''] []) = Inr [''idC'']"
proof -
  have one: "fst (read_msg_id (mailbox snapshot4) ''2'' []) = Inr ''idC''"
    by code_simp
  from read_refines_batch_singleton [of "mailbox snapshot4" "''2''" "[]"] one show ?thesis
    by simp
qed

section \<open>The action commands\<close>

lemma get_client_trace:
  "\<exists>pre. snd (get_client E tr) = tr @ pre \<and> filter is_mutation pre = []"
  by (auto simp: get_client_def invoke_def split: reply.splits)

lemma resolve_refs_trace:
  "\<exists>ext. snd (resolve_refs E refs tr) = tr @ ext \<and> filter is_mutation ext = []"
proof -
  from resolve_loop_trace [of E refs refs None "[]" tr] obtain ext where
    "snd (resolve_refs E refs tr) = tr @ ext" "ext = [] \<or> (\<exists>n. ext = [Get_messages n ''0''])"
    unfolding resolve_refs_def by blast
  then show ?thesis by auto
qed

lemma with_resolved_cases:
  "(\<exists>e pre. with_resolved E refs tr k = (Inl e, tr @ pre) \<and> filter is_mutation pre = [])
   \<or> (\<exists>ids pre tr1. get_client E tr = (Inr (), tr1)
         \<and> resolve_refs E refs tr1 = (Inr ids, tr @ pre)
         \<and> filter is_mutation pre = []
         \<and> with_resolved E refs tr k = k ids (tr @ pre))"
proof -
  obtain r1 tr1 where gc: "get_client E tr = (r1, tr1)" by (cases "get_client E tr")
  from get_client_trace [of E tr] gc obtain pre1 where
    pre1: "tr1 = tr @ pre1" "filter is_mutation pre1 = []" by auto
  show ?thesis
  proof (cases r1)
    case (Inl e)
    with gc pre1 show ?thesis by (auto simp: with_resolved_def)
  next
    case (Inr u)
    obtain r2 tr2 where rs: "resolve_refs E refs tr1 = (r2, tr2)"
      by (cases "resolve_refs E refs tr1")
    from resolve_refs_trace [of E refs tr1] rs obtain ext where
      ext: "tr2 = tr1 @ ext" "filter is_mutation ext = []" by auto
    with pre1 have tr2: "tr2 = tr @ (pre1 @ ext)" "filter is_mutation (pre1 @ ext) = []"
      by simp_all
    show ?thesis
    proof (cases r2)
      case (Inl e)
      with gc Inr rs have "with_resolved E refs tr k = (Inl e, tr2)"
        by (simp add: with_resolved_def)
      with tr2 show ?thesis by blast
    next
      case ids: (Inr ids)
      with gc Inr rs have "with_resolved E refs tr k = k ids tr2"
        by (simp add: with_resolved_def)
      moreover from gc Inr have "get_client E tr = (Inr (), tr1)" by simp
      moreover from rs ids have "resolve_refs E refs tr1 = (Inr ids, tr2)" by simp
      ultimately show ?thesis using tr2 by blast
    qed
  qed
qed

text \<open>
  Claim C7. For each of delete, archive, spam, star and unread: when the client is
  obtained and \<open>_resolve_refs\<close> fails on the batch, the command ends with that failure
  right there, and the calls made contain no mutation call beyond those already made
  before the command.
\<close>

theorem failed_resolution_applies_no_mutation:
  assumes gc: "get_client E tr = (Inr (), tr1)"
    and rs: "resolve_refs E refs tr1 = (Inl e, tr2)"
  shows "action_command a E refs tr = (Inl e, tr2)
     \<and> filter is_mutation tr2 = filter is_mutation tr"
proof -
  have "action_command a E refs tr = (Inl e, tr2)"
    using gc rs
    by (cases a) (simp_all add: delete_def archive_def spam_def star_def unread_def with_resolved_def)
  moreover from get_client_trace [of E tr] gc obtain pre where
    "tr1 = tr @ pre" "filter is_mutation pre = []" by auto
  moreover from resolve_refs_trace [of E refs tr1] rs obtain ext where
    "tr2 = tr1 @ ext" "filter is_mutation ext = []" by auto
  ultimately show ?thesis by simp
qed

theorem failed_resolution_applies_no_mutation_witness:
  "action_command Delete (mailbox snapshot4) [''0'', ''9''] []
       = (Inl (SystemExit ''Index 9 out of range''), [Load_session, Get_messages 10 ''0''])
     \<and> filter is_mutation [Load_session, Get_messages 10 ''0''] = filter is_mutation []"
proof -
  have gc: "get_client (mailbox snapshot4) [] = (Inr (), [Load_session])"
    by code_simp
  have rs: "resolve_refs (mailbox snapshot4) [''0'', ''9''] [Load_session]
      = (Inl (SystemExit ''Index 9 out of range''), [Load_session, Get_messages 10 ''0''])"
    by code_simp
  show ?thesis by (rule failed_resolution_applies_no_mutation [OF gc rs])
qed

lemma add_then_remove_trace:
  "\<exists>n. 0 < n \<and>
     snd (then_call E (Set_label_for_messages l ids) tr2 (\<lambda>tr3.
            then_call E (Unset_label_for_messages ''0'' ids) tr3 (\<lambda>tr4. (Inr x, tr4))))
       = tr2 @ take n [Set_label_for_messages l ids, Unset_label_for_messages ''0'' ids]"
proof (cases "respond E tr2 (Set_label_for_messages l ids)")
  case (Raises m)
  then have "snd (then_call E (Set_label_for_messages l ids) tr2 (\<lambda>tr3.
            then_call E (Unset_label_for_messages ''0'' ids) tr3 (\<lambda>tr4. (Inr x, tr4))))
       = tr2 @ take 1 [Set_label_for_messages l ids, Unset_label_for_messages ''0'' ids]"
    by (simp add: then_call_def invoke_def)
  then show ?thesis by (intro exI [of _ 1]) simp
next
  case (Returns ms)
  then have "snd (then_call E (Set_label_for_messages l ids) tr2 (\<lambda>tr3.
            then_call E (Unset_label_for_messages ''0'' ids) tr3 (\<lambda>tr4. (Inr x, tr4))))
       = tr2 @ take 2 [Set_label_for_messages l ids, Unset_label_for_messages ''0'' ids]"
    by (simp add: then_call_def invoke_def split: reply.splits)
  then show ?thesis by (intro exI [of _ 2]) simp
qed

lemma move_command_mutations:
  assumes cmd: "\<And>E refs tr. cmd E refs tr = with_resolved E refs tr (\<lambda>ids tr2.
       then_call E (Set_label_for_messages l ids) tr2 (\<lambda>tr3.
         then_call E (Unset_label_for_messages ''0'' ids) tr3 (\<lambda>tr4. (Inr (line ids), tr4))))"
  shows "\<exists>ids n. filter is_mutation (drop (length tr) (snd (cmd E refs tr)))
           = take n [Set_label_for_messages l ids, Unset_label_for_messages ''0'' ids]"
proof -
  let ?k = "\<lambda>ids tr2.
       then_call E (Set_label_for_messages l ids) tr2 (\<lambda>tr3.
         then_call E (Unset_label_for_messages ''0'' ids) tr3 (\<lambda>tr4. (Inr (line ids), tr4)))"
  from with_resolved_cases [of E refs tr ?k] show ?thesis
  proof
    assume "\<exists>e pre. with_resolved E refs tr ?k = (Inl e, tr @ pre) \<and> filter is_mutation pre = []"
    then obtain e pre where "cmd E refs tr = (Inl e, tr @ pre)" "filter is_mutation pre = []"
      using cmd by auto
    then have "filter is_mutation (drop (length tr) (snd (cmd E refs tr)))
        = take 0 [Set_label_for_messages l [], Unset_label_for_messages ''0'' []]"
      by simp
    then show ?thesis by blast
  next
    assume "\<exists>ids pre tr1. get_client E tr = (Inr (), tr1)
         \<and> resolve_refs E refs tr1 = (Inr ids, tr @ pre)
         \<and> filter is_mutation pre = []
         \<and> with_resolved E refs tr ?k = ?k ids (tr @ pre)"
    then obtain ids pre where pre: "filter is_mutation pre = []"
      and run: "cmd E refs tr = ?k ids (tr @ pre)"
      using cmd by auto
    from add_then_remove_trace [of E l ids "tr @ pre" "line ids"] obtain n where
      "snd (?k ids (tr @ pre))
        = (tr @ pre) @ take n [Set_label_for_messages l ids, Unset_label_for_messages ''0'' ids]"
      by blast
    with run pre have "filter is_mutation (drop (length tr) (snd (cmd E refs tr)))
        = filter is_mutation (take n [Set_label_for_messages l ids, Unset_label_for_messages ''0'' ids])"
      by simp
    also have "\<dots> = take n [Set_label_for_messages l ids, Unset_label_for_messages ''0'' ids]"
      by (cases n; cases "n - 1") simp_all
    finally show ?thesis by blast
  qed
qed

lemma then_call_raises:
  "respond E tr c = Raises m \<Longrightarrow> then_call E c tr k = (Inl (LibraryError m), tr @ [c])"
  by (simp add: then_call_def invoke_def)

lemma then_call_returns:
  "respond E tr c = Returns ms \<Longrightarrow> then_call E c tr k = k (tr @ [c])"
  by (simp add: then_call_def invoke_def)

lemma with_resolved_ok:
  "get_client E tr = (Inr (), tr1) \<Longrightarrow> resolve_refs E refs tr1 = (Inr ids, tr2) \<Longrightarrow>
     with_resolved E refs tr k = k ids tr2"
  by (simp add: with_resolved_def)

lemma move_command_resolved:
  assumes cmd: "\<And>E refs tr. cmd E refs tr = with_resolved E refs tr (\<lambda>ids tr2.
       then_call E (Set_label_for_messages l ids) tr2 (\<lambda>tr3.
         then_call E (Unset_label_for_messages ''0'' ids) tr3 (\<lambda>tr4. (Inr (line ids), tr4))))"
    and gc: "get_client E tr = (Inr (), tr1)"
    and rs: "resolve_refs E refs tr1 = (Inr ids, tr2)"
  shows "\<exists>n. 0 < n \<and> snd (cmd E refs tr)
           = tr2 @ take n [Set_label_for_messages l ids, Unset_label_for_messages ''0'' ids]"
  unfolding cmd with_resolved_ok [OF gc rs]
  by (rule add_then_remove_trace)

lemma then_call_last_trace:
  "snd (then_call E c tr (\<lambda>t. (x, t))) = tr @ [c]"
  by (simp add: then_call_def invoke_def split: reply.splits)

text \<open>
  Claim C5. In every run of archive (and of spam) the mutation calls issued are an initial
  part of the two-call sequence: apply label \<open>"4"\<close> (\<open>"6"\<close> for spam), then remove
  label \<open>"0"\<close>, both on the same identifiers; so a remove is never issued unless the add
  was issued before it. When the batch resolved, these are the resolved identifiers: if
  the add call raises, it is the only mutation call and the command fails; if it
  returns, the remove call is issued right after it; and if both return, the command
  reports the count. \<open>SYSTEM_LABELS\<close> names the three labels Archive, Spam and Inbox.
\<close>

theorem archive_spam_add_before_remove:
  "(\<exists>ids n. filter is_mutation (drop (length tr) (snd (archive E refs tr)))
        = take n [Set_label_for_messages ''4'' ids, Unset_label_for_messages ''0'' ids])
   \<and> (\<exists>ids n. filter is_mutation (drop (length tr) (snd (spam E refs tr)))
        = take n [Set_label_for_messages ''6'' ids, Unset_label_for_messages ''0'' ids])
   \<and> (\<forall>tr1 ids tr2. get_client E tr = (Inr (), tr1) \<and> resolve_refs E refs tr1 = (Inr ids, tr2) \<longrightarrow>
        (\<forall>m. respond E tr2 (Set_label_for_messages ''4'' ids) = Raises m \<longrightarrow>
           archive E refs tr = (Inl (LibraryError m), tr2 @ [Set_label_for_messages ''4'' ids]))
        \<and> (\<forall>ms. respond E tr2 (Set_label_for_messages ''4'' ids) = Returns ms \<longrightarrow>
           snd (archive E refs tr)
             = tr2 @ [Set_label_for_messages ''4'' ids, Unset_label_for_messages ''0'' ids])
        \<and> (\<forall>ms ms'. respond E tr2 (Set_label_for_messages ''4'' ids) = Returns ms
              \<and> respond E (tr2 @ [Set_label_for_messages ''4'' ids])
                    (Unset_label_for_messages ''0'' ids) = Returns ms' \<longrightarrow>
           archive E refs tr
             = (Inr (''[green]Archived '' @ str_nat (length ids) @ '' message(s).[/]''),
                tr2 @ [Set_label_for_messages ''4'' ids, Unset_label_for_messages ''0'' ids]))
        \<and> (\<forall>m. respond E tr2 (Set_label_for_messages ''6'' ids) = Raises m \<longrightarrow>
           spam E refs tr = (Inl (LibraryError m), tr2 @ [Set_label_for_messages ''6'' ids]))
        \<and> (\<forall>ms. respond E tr2 (Set_label_for_messages ''6'' ids) = Returns ms \<longrightarrow>
           snd (spam E refs tr)
             = tr2 @ [Set_label_for_messages ''6'' ids, Unset_label_for_messages ''0'' ids])
        \<and> (\<forall>ms ms'. respond E tr2 (Set_label_for_messages ''6'' ids) = Returns ms
              \<and> respond E (tr2 @ [Set_label_for_messages ''6'' ids])
                    (Unset_label_for_messages ''0'' ids) = Returns ms' \<longrightarrow>
           spam E refs tr
             = (Inr (''[green]Marked '' @ str_nat (length ids) @ '' message(s) as spam.[/]''),
                tr2 @ [Set_label_for_messages ''6'' ids, Unset_label_for_messages ''0'' ids])))
   \<and> SYSTEM_LABELS ''4'' = Some ''Archive''
   \<and> SYSTEM_LABELS ''6'' = Some ''Spam''
   \<and> SYSTEM_LABELS ''0'' = Some ''Inbox''"
proof -
  have a: "\<exists>ids n. filter is_mutation (drop (length tr) (snd (archive E refs tr)))
        = take n [Set_label_for_messages ''4'' ids, Unset_label_for_messages ''0'' ids]"
    by (rule move_command_mutations) (simp add: archive_def)
  have s: "\<exists>ids n. filter is_mutation (drop (length tr) (snd (spam E refs tr)))
        = take n [Set_label_for_messages ''6'' ids, Unset_label_for_messages ''0'' ids]"
    by (rule move_command_mutations) (simp add: spam_def)
  have r: "\<forall>tr1 ids tr2. get_client E tr = (Inr (), tr1) \<and> resolve_refs E refs tr1 = (Inr ids, tr2) \<longrightarrow>
        (\<forall>m. respond E tr2 (Set_label_for_messages ''4'' ids) = Raises m \<longrightarrow>
           archive E refs tr = (Inl (LibraryError m), tr2 @ [Set_label_for_messages ''4'' ids]))
        \<and> (\<forall>ms. respond E tr2 (Set_label_for_messages ''4'' ids) = Returns ms \<longrightarrow>
           snd (archive E refs tr)
             = tr2 @ [Set_label_for_messages ''4'' ids, Unset_label_for_messages ''0'' ids])
        \<and> (\<forall>ms ms'. respond E tr2 (Set_label_for_messages ''4'' ids) = Returns ms
              \<and> respond E (tr2 @ [Set_label_for_messages ''4'' ids])
                    (Unset_label_for_messages ''0'' ids) = Returns ms' \<longrightarrow>
           archive E refs tr
             = (Inr (''[green]Archived '' @ str_nat (length ids) @ '' message(s).[/]''),
                tr2 @ [Set_label_for_messages ''4'' ids, Unset_label_for_messages ''0'' ids]))
        \<and> (\<forall>m. respond E tr2 (Set_label_for_messages ''6'' ids) = Raises m \<longrightarrow>
           spam E refs tr = (Inl (LibraryError m), tr2 @ [Set_label_for_messages ''6'' ids]))
        \<and> (\<forall>ms. respond E tr2 (Set_label_for_messages ''6'' ids) = Returns ms \<longrightarrow>
           snd (spam E refs tr)
             = tr2 @ [Set_label_for_messages ''6'' ids, Unset_label_for_messages ''0'' ids])
        \<and> (\<forall>ms ms'. respond E tr2 (Set_label_for_messages ''6'' ids) = Returns ms
              \<and> respond E (tr2 @ [Set_label_for_messages ''6'' ids])
                    (Unset_label_for_messages ''0'' ids) = Returns ms' \<longrightarrow>
           spam E refs tr
             = (Inr (''[green]Marked '' @ str_nat (length ids) @ '' message(s) as spam.[/]''),
                tr2 @ [Set_label_for_messages ''6'' ids, Unset_label_for_messages ''0'' ids]))"
    by (simp add: archive_def spam_def with_resolved_ok then_call_raises then_call_returns
        then_call_last_trace)
  have l: "SYSTEM_LABELS ''4'' = Some ''Archive'' \<and> SYSTEM_LABELS ''6'' = Some ''Spam''
      \<and> SYSTEM_LABELS ''0'' = Some ''Inbox''"
    by (simp add: SYSTEM_LABELS_def)
  from a s r l show ?thesis by (intro conjI) simp_all
qed

theorem archive_spam_add_before_remove_witness:
  "archive (mailbox snapshot4) [''1'', ''abc123''] []
     = (Inr ''[green]Archived 2 message(s).[/]'',
        [Load_session, Get_messages 2 ''0'',
         Set_label_for_messages ''4'' [''idB'', ''abc123''],
         Unset_label_for_messages ''0'' [''idB'', ''abc123'']])
   \<and> spam (mailbox snapshot4) [''1'', ''abc123''] []
     = (Inr ''[green]Marked 2 message(s) as spam.[/]'',
        [Load_session, Get_messages 2 ''0'',
         Set_label_for_messages ''6'' [''idB'', ''abc123''],
         Unset_label_for_messages ''0'' [''idB'', ''abc123'']])"
proof -
  have gc: "get_client (mailbox snapshot4) [] = (Inr (), [Load_session])"
    by code_simp
  have rs: "resolve_refs (mailbox snapshot4) [''1'', ''abc123''] [Load_session]
      = (Inr [''idB'', ''abc123''], [Load_session, Get_messages 2 ''0''])"
    by code_simp
  have ok: "respond (mailbox snapshot4) t c = Returns [] \<or> (\<exists>n l. c = Get_messages n l)" for t c
    by (cases c) (simp_all add: mailbox_def mailbox_failing_def)
  have n: "str_nat (length [''idB'', ''abc123'']) = ''2''"
    by code_simp
  from archive_spam_add_before_remove [of "[]" "mailbox snapshot4" "[''1'', ''abc123'']"] gc rs
  have "(\<forall>ms ms'. respond (mailbox snapshot4) [Load_session, Get_messages 2 ''0'']
                (Set_label_for_messages ''4'' [''idB'', ''abc123'']) = Returns ms
              \<and> respond (mailbox snapshot4)
                    ([Load_session, Get_messages 2 ''0''] @ [Set_label_for_messages ''4'' [''idB'', ''abc123'']])
                    (Unset_label_for_messages ''0'' [''idB'', ''abc123'']) = Returns ms' \<longrightarrow>
           archive (mailbox snapshot4) [''1'', ''abc123''] []
             = (Inr (''[green]Archived '' @ str_nat (length [''idB'', ''abc123'']) @ '' message(s).[/]''),
                [Load_session, Get_messages 2 ''0'']
                  @ [Set_label_for_messages ''4'' [''idB'', ''abc123''],
                     Unset_label_for_messages ''0'' [''idB'', ''abc123'']]))
      \<and> (\<forall>ms ms'. respond (mailbox snapshot4) [Load_session, Get_messages 2 ''0'']
                (Set_label_for_messages ''6'' [''idB'', ''abc123'']) = Returns ms
              \<and> respond (mailbox snapshot4)
                    ([Load_session, Get_messages 2 ''0''] @ [Set_label_for_messages ''6'' [''idB'', ''abc123'']])
                    (Unset_label_for_messages ''0'' [''idB'', ''abc123'']) = Returns ms' \<longrightarrow>
           spam (mailbox snapshot4) [''1'', ''abc123''] []
             = (Inr (''[green]Marked '' @ str_nat (length [''idB'', ''abc123'']) @ '' message(s) as spam.[/]''),
                [Load_session, Get_messages 2 ''0'']
                  @ [Set_label_for_messages ''6'' [''idB'', ''abc123''],
                     Unset_label_for_messages ''0'' [''idB'', ''abc123'']]))"
    by blast
  with ok n show ?thesis
    by (simp add: mailbox_def mailbox_failing_def)
qed

text \<open>
  Claim C8, as amended. When the add-label call returns and the remove-Inbox call
  raises, archive (and spam) ends with the library's exception, unchanged, after both
  calls: not a success, and the same kind of outcome as when the add-label call itself
  raises. Nothing marks the partial state.
\<close>

theorem partial_label_failure_is_plain_failure:
  assumes gc: "get_client E tr = (Inr (), tr1)"
    and rs: "resolve_refs E refs tr1 = (Inr ids, tr2)"
  shows "(\<forall>ms m. respond E tr2 (Set_label_for_messages ''4'' ids) = Returns ms
            \<and> respond E (tr2 @ [Set_label_for_messages ''4'' ids])
                  (Unset_label_for_messages ''0'' ids) = Raises m
          \<longrightarrow> archive E refs tr = (Inl (LibraryError m),
                 tr2 @ [Set_label_for_messages ''4'' ids, Unset_label_for_messages ''0'' ids]))
     \<and> (\<forall>m. respond E tr2 (Set_label_for_messages ''4'' ids) = Raises m
          \<longrightarrow> archive E refs tr = (Inl (LibraryError m), tr2 @ [Set_label_for_messages ''4'' ids]))
     \<and> (\<forall>ms m. respond E tr2 (Set_label_for_messages ''6'' ids) = Returns ms
            \<and> respond E (tr2 @ [Set_label_for_messages ''6'' ids])
                  (Unset_label_for_messages ''0'' ids) = Raises m
          \<longrightarrow> spam E refs tr = (Inl (LibraryError m),
                 tr2 @ [Set_label_for_messages ''6'' ids, Unset_label_for_messages ''0'' ids]))
     \<and> (\<forall>m. respond E tr2 (Set_label_for_messages ''6'' ids) = Raises m
          \<longrightarrow> spam E refs tr = (Inl (LibraryError m), tr2 @ [Set_label_for_messages ''6'' ids]))"
  using gc rs
  by (simp add: archive_def spam_def with_resolved_ok then_call_raises then_call_returns)

theorem partial_label_failure_is_plain_failure_witness:
  "archive (mailbox_failing is_unset_label snapshot4) [''abc123''] []
     = (Inl (LibraryError ''boom''),
        [Load_session] @ [Set_label_for_messages ''4'' [''abc123''],
                          Unset_label_for_messages ''0'' [''abc123'']])"
proof -
  have gc: "get_client (mailbox_failing is_unset_label snapshot4) [] = (Inr (), [Load_session])"
    by code_simp
  have rs: "resolve_refs (mailbox_failing is_unset_label snapshot4) [''abc123''] [Load_session]
      = (Inr [''abc123''], [Load_session])"
    by code_simp
  have add: "respond (mailbox_failing is_unset_label snapshot4) [Load_session]
      (Set_label_for_messages ''4'' [''abc123'']) = Returns []"
    by code_simp
  have rm: "respond (mailbox_failing is_unset_label snapshot4)
      ([Load_session] @ [Set_label_for_messages ''4'' [''abc123'']])
      (Unset_label_for_messages ''0'' [''abc123'']) = Raises ''boom''"
    by code_simp
  from partial_label_failure_is_plain_failure [OF gc rs] add rm show ?thesis
    by blast
qed

text \<open>
  Claim C8 as stated fails: a collaborator whose remove call raises and one whose add
  call raises give archive the same reported outcome.
\<close>

theorem partial_label_failure_counterexample:
  "fst (archive (mailbox_failing is_unset_label snapshot4) [''abc123''] [])
     = fst (archive (mailbox_failing is_set_label snapshot4) [''abc123''] [])
   \<and> fst (archive (mailbox_failing is_unset_label snapshot4) [''abc123''] [])
     = Inl (LibraryError ''boom'')
   \<and> snd (archive (mailbox_failing is_unset_label snapshot4) [''abc123''] [])
     = [Load_session, Set_label_for_messages ''4'' [''abc123''],
        Unset_label_for_messages ''0'' [''abc123'']]
   \<and> snd (archive (mailbox_failing is_set_label snapshot4) [''abc123''] [])
     = [Load_session, Set_label_for_messages ''4'' [''abc123'']]"
  by code_simp

section \<open>Which references are indices\<close>

lemma isdigit_plain:
  "no_special_digit ref \<Longrightarrow> isdigit ref = (ref \<noteq> [] \<and> list_all isdecimal_char ref)"
  by (auto simp: no_special_digit_def isdigit_def list_all_iff)

lemma int_py_plain:
  "no_special_digit ref \<Longrightarrow> index_like ref \<Longrightarrow> \<exists>idx. int_py ref = Inr idx"
  by (simp add: isdigit_plain index_like_def int_py_def)

lemma resolve_refs_pass_through:
  "\<not> index_like ref \<Longrightarrow> resolve_refs E [ref] tr = (Inr [ref], tr)"
  by (simp add: resolve_refs_def)

lemma resolve_refs_index:
  assumes "index_like ref" and "int_py ref = Inr idx"
    and "respond E tr (Get_messages (idx + 1) ''0'') = Returns inbox" and "idx < length inbox"
  shows "resolve_refs E [ref] tr
     = (Inr [message_id (inbox ! idx)], tr @ [Get_messages (idx + 1) ''0''])"
  using assms
  by (simp add: resolve_refs_def fill_inbox_cache_def max_py_def invoke_def)

text \<open>
  Claim C1, as amended. For a reference string none of whose characters is a
  non-decimal digit: the resolver's test accepts it exactly when it is non-empty,
  consists of decimal digits only and has at most 4 characters. A string the test
  rejects (the empty string and digit strings of 5 or more characters among them) is
  emitted unchanged, for every collaborator and without a fetch, and as a member of a
  batch it leaves the cache and the calls as they are, whatever the listing holds. A
  string the test accepts has an integer value \<open>idx\<close> and resolves to the identifier at
  position \<open>idx\<close> of the listing fetched with page size \<open>idx + 1\<close>.
\<close>

theorem index_classification:
  assumes plain: "no_special_digit ref"
  shows "index_like ref = (ref \<noteq> [] \<and> list_all isdecimal_char ref \<and> length ref \<le> 4)
     \<and> (\<not> index_like ref \<longrightarrow>
           resolve_refs E [ref] tr = (Inr [ref], tr)
           \<and> resolve_loop E refs (ref # rest) cache ids tr
               = resolve_loop E refs rest cache (ids @ [ref]) tr)
     \<and> (index_like ref \<longrightarrow>
           (\<exists>idx. int_py ref = Inr idx
              \<and> (\<forall>inbox. respond E tr (Get_messages (idx + 1) ''0'') = Returns inbox
                     \<and> idx < length inbox
                   \<longrightarrow> resolve_refs E [ref] tr
                        = (Inr [message_id (inbox ! idx)], tr @ [Get_messages (idx + 1) ''0'']))))"
proof (intro conjI impI)
  show "index_like ref = (ref \<noteq> [] \<and> list_all isdecimal_char ref \<and> length ref \<le> 4)"
    using plain by (simp add: index_like_def isdigit_plain)
next
  assume "\<not> index_like ref"
  then show "resolve_refs E [ref] tr = (Inr [ref], tr)"
    by (rule resolve_refs_pass_through)
next
  assume "\<not> index_like ref"
  then show "resolve_loop E refs (ref # rest) cache ids tr
               = resolve_loop E refs rest cache (ids @ [ref]) tr"
    by simp
next
  assume idx: "index_like ref"
  with plain obtain idx where v: "int_py ref = Inr idx"
    using int_py_plain by blast
  with idx have "\<forall>inbox. respond E tr (Get_messages (idx + 1) ''0'') = Returns inbox
                     \<and> idx < length inbox
                   \<longrightarrow> resolve_refs E [ref] tr
                        = (Inr [message_id (inbox ! idx)], tr @ [Get_messages (idx + 1) ''0''])"
    using resolve_refs_index by blast
  with v show "\<exists>idx. int_py ref = Inr idx
              \<and> (\<forall>inbox. respond E tr (Get_messages (idx + 1) ''0'') = Returns inbox
                     \<and> idx < length inbox
                   \<longrightarrow> resolve_refs E [ref] tr
                        = (Inr [message_id (inbox ! idx)], tr @ [Get_messages (idx + 1) ''0'']))"
    by blast
qed

theorem index_classification_witness:
  "index_like ''12345'' = False
     \<and> resolve_refs (mailbox snapshot4) [''12345''] [] = (Inr [''12345''], [])
     \<and> index_like ''2'' = True"
proof -
  have p5: "no_special_digit ''12345''" by code_simp
  have p1: "no_special_digit ''2''" by code_simp
  have r5: "(''12345'' \<noteq> [] \<and> list_all isdecimal_char ''12345'' \<and> length ''12345'' \<le> 4) = False"
    by code_simp
  have r1: "(''2'' \<noteq> [] \<and> list_all isdecimal_char ''2'' \<and> length ''2'' \<le> 4) = True"
    by code_simp
  from index_classification [OF p5, of "mailbox snapshot4" "[]"] r5
    index_classification [OF p1] r1
  show ?thesis by simp
qed

text \<open>
  Claim C1 as stated fails at the empty string: it consists of decimal digits only,
  vacuously, and has length 0, yet it is not taken as an index.
\<close>

theorem index_classification_counterexample:
  "\<not> (index_like '''' = (list_all isdecimal_char '''' \<and> length '''' \<le> 4))
     \<and> resolve_refs (mailbox snapshot4) [''''] [] = (Inr [''''], [])"
  by (simp add: index_like_def isdigit_def resolve_refs_def)

section \<open>Out-of-range indices\<close>

lemma index_values_skip:
  "\<not> index_like r \<Longrightarrow> index_values (r # rs) = index_values rs"
  by simp

lemma index_values_index:
  "index_like r \<Longrightarrow> index_values (r # rs) = Inr ws \<Longrightarrow>
     \<exists>w ws'. int_py r = Inr w \<and> index_values rs = Inr ws' \<and> ws = w # ws'"
  by (auto split: sum.splits)

lemma resolve_loop_cached_out_of_range:
  "index_values rest = Inr ws \<Longrightarrow> find (\<lambda>v. length inbox \<le> v) ws = Some v \<Longrightarrow>
     resolve_loop E refs rest (Some inbox) ids tr
       = (Inl (SystemExit (''Index '' @ str_nat v @ '' out of range'')), tr)"
proof (induction rest arbitrary: ids ws)
  case Nil
  then show ?case by simp
next
  case (Cons r rest)
  show ?case
  proof (cases "index_like r")
    case False
    with Cons.prems have "index_values rest = Inr ws" by simp
    from Cons.IH [OF this Cons.prems(2)] False show ?thesis by simp
  next
    case True
    from index_values_index [OF True Cons.prems(1)] obtain w ws' where
      w: "int_py r = Inr w" "index_values rest = Inr ws'" "ws = w # ws'"
      by blast
    show ?thesis
    proof (cases "length inbox \<le> w")
      case True
      with w Cons.prems(2) have "v = w" by simp
      with True \<open>index_like r\<close> w show ?thesis by simp
    next
      case False
      with w Cons.prems(2) have "find (\<lambda>v. length inbox \<le> v) ws' = Some v" by simp
      from Cons.IH [OF w(2) this] False \<open>index_like r\<close> w show ?thesis by simp
    qed
  qed
qed

lemma resolve_loop_uncached_out_of_range:
  "index_values rest = Inr ws \<Longrightarrow> find (\<lambda>v. length inbox \<le> v) ws = Some v \<Longrightarrow>
   fill_inbox_cache E refs None tr = (Inr inbox, tr') \<Longrightarrow>
     resolve_loop E refs rest None ids tr
       = (Inl (SystemExit (''Index '' @ str_nat v @ '' out of range'')), tr')"
proof (induction rest arbitrary: ids ws)
  case Nil
  then show ?case by simp
next
  case (Cons r rest)
  show ?case
  proof (cases "index_like r")
    case False
    with Cons.prems have "index_values rest = Inr ws" by simp
    from Cons.IH [OF this Cons.prems(2,3)] False show ?thesis by simp
  next
    case True
    from index_values_index [OF True Cons.prems(1)] obtain w ws' where
      w: "int_py r = Inr w" "index_values rest = Inr ws'" "ws = w # ws'"
      by blast
    show ?thesis
    proof (cases "length inbox \<le> w")
      case True
      with w Cons.prems(2) have "v = w" by simp
      with True \<open>index_like r\<close> w Cons.prems(3) show ?thesis by simp
    next
      case False
      with w Cons.prems(2) have "find (\<lambda>v. length inbox \<le> v) ws' = Some v" by simp
      from resolve_loop_cached_out_of_range [OF w(2) this] False \<open>index_like r\<close> w Cons.prems(3)
      show ?thesis by simp
    qed
  qed
qed

lemma foldl_max_Max:
  "foldl max (v::nat) rest = Max (set (v # rest))"
proof (induction rest arbitrary: v)
  case Nil
  then show ?case by simp
next
  case (Cons a rest)
  have "foldl max v (a # rest) = Max (set (max v a # rest))"
    using Cons.IH [of "max v a"] by simp
  also have "\<dots> = Max (set (v # a # rest))"
    by (cases "set rest = {}") (simp_all add: max.assoc)
  finally show ?case .
qed

lemma max_py_Max:
  "vs \<noteq> [] \<Longrightarrow> max_py vs = Inr (Max (set vs))"
  by (cases vs) (simp_all add: max_py_def foldl_max_Max del: set_simps)

lemma fill_inbox_cache_fetch:
  assumes "index_values refs = Inr vs" and "vs \<noteq> []"
  shows "fill_inbox_cache E refs None tr
     = (case respond E tr (Get_messages (Max (set vs) + 1) ''0'') of
          Raises m \<Rightarrow> (Inl (LibraryError m), tr @ [Get_messages (Max (set vs) + 1) ''0''])
        | Returns inbox \<Rightarrow> (Inr inbox, tr @ [Get_messages (Max (set vs) + 1) ''0'']))"
  using assms
  by (simp add: fill_inbox_cache_def max_py_Max invoke_def split: reply.splits)

text \<open>
  Claim C6, as amended. When every index-like reference of the batch converts, the
  listing is fetched, and \<open>v\<close> is the first index value of the batch, in batch order,
  that is not below the listing's length, the whole batch fails with the
  \<open>SystemExit\<close> whose message is \<open>Index v out of range\<close>, after that one fetch. The
  message names the requested index and nothing else.
\<close>

theorem out_of_range_reports_index:
  assumes vals: "index_values refs = Inr vs"
    and fetched: "respond E tr (Get_messages (Max (set vs) + 1) ''0'') = Returns inbox"
    and first: "find (\<lambda>v. length inbox \<le> v) vs = Some v"
  shows "resolve_refs E refs tr
     = (Inl (SystemExit (''Index '' @ str_nat v @ '' out of range'')),
        tr @ [Get_messages (Max (set vs) + 1) ''0''])"
proof -
  from first have "vs \<noteq> []" by auto
  from fill_inbox_cache_fetch [OF vals this, of E tr] fetched
  have "fill_inbox_cache E refs None tr = (Inr inbox, tr @ [Get_messages (Max (set vs) + 1) ''0''])"
    by simp
  from resolve_loop_uncached_out_of_range [OF vals first this]
  show ?thesis by (simp add: resolve_refs_def)
qed

theorem out_of_range_reports_index_witness:
  "resolve_refs (mailbox snapshot4) [''2'', ''9'', ''xyz''] []
     = (Inl (SystemExit (''Index '' @ str_nat 9 @ '' out of range'')),
        [] @ [Get_messages (Max (set [2, 9]) + 1) ''0''])"
proof -
  have vals: "index_values [''2'', ''9'', ''xyz''] = Inr [2, 9]"
    by code_simp
  have fetched: "respond (mailbox snapshot4) [] (Get_messages (Max (set [2, 9]) + 1) ''0'')
      = Returns snapshot4"
    by (simp add: mailbox_def mailbox_failing_def snapshot4_def)
  have first: "find (\<lambda>v. length snapshot4 \<le> v) [2, 9] = Some 9"
    by (simp add: snapshot4_def)
  show ?thesis by (rule out_of_range_reports_index [OF vals fetched first])
qed

text \<open>
  Claim C6 as stated fails: for \<open>["9"]\<close> the error is the same against a listing of 4
  messages and against one of 3, so it does not report the listing's length.
\<close>

theorem out_of_range_counterexample:
  "fst (resolve_refs (mailbox snapshot4) [''9''] []) = Inl (SystemExit ''Index 9 out of range'')
   \<and> fst (resolve_refs (mailbox (take 3 snapshot4)) [''9''] [])
       = Inl (SystemExit ''Index 9 out of range'')
   \<and> length snapshot4 = 4
   \<and> length (take 3 snapshot4) = 3"
  by code_simp

section \<open>The number of fetches\<close>

lemma index_values_none:
  "index_values refs = Inr [] \<Longrightarrow> filter index_like refs = []"
  by (induction refs) (auto split: if_splits sum.splits)

lemma resolve_loop_uncached_trace:
  "index_values rest = Inr ws \<Longrightarrow> ws \<noteq> [] \<Longrightarrow>
     snd (resolve_loop E refs rest None ids tr) = snd (fill_inbox_cache E refs None tr)"
proof (induction rest arbitrary: ids)
  case Nil
  then show ?case by simp
next
  case (Cons r rest)
  show ?case
  proof (cases "index_like r")
    case False
    with Cons show ?thesis by simp
  next
    case True
    from index_values_index [OF True Cons.prems(1)] obtain w where "int_py r = Inr w"
      by blast
    with True show ?thesis
      using resolve_loop_cached_trace [of E refs rest]
      by (auto split: prod.splits sum.splits)
  qed
qed

text \<open>
  When every index-like reference of the batch converts: no fetch and the batch returned
  as it is when there is none, and otherwise exactly one fetch, of the inbox, with page
  size the largest index value plus one.
\<close>

lemma resolve_refs_single_fetch:
  assumes "index_values refs = Inr vs"
  shows "(vs = [] \<longrightarrow> resolve_refs E refs tr = (Inr refs, tr))
     \<and> (vs \<noteq> [] \<longrightarrow> snd (resolve_refs E refs tr) = tr @ [Get_messages (Max (set vs) + 1) ''0''])"
proof (intro conjI impI)
  assume "vs = []"
  with assms have "filter index_like refs = []" by (simp add: index_values_none)
  then show "resolve_refs E refs tr = (Inr refs, tr)"
    using resolve_loop_no_index [of refs E refs None "[]" tr] by (simp add: resolve_refs_def)
next
  assume ne: "vs \<noteq> []"
  from resolve_loop_uncached_trace [OF assms ne, of E refs "[]" tr]
    fill_inbox_cache_fetch [OF assms ne, of E tr]
  show "snd (resolve_refs E refs tr) = tr @ [Get_messages (Max (set vs) + 1) ''0'']"
    by (simp add: resolve_refs_def split: reply.splits)
qed

text \<open>
  Claim C2, at the batch of \<open>"1"\<close> and the one-character string U+00B2 (superscript
  two): \<open>"1"\<close> is an index and converts; the superscript passes \<open>isdigit\<close> too but
  is no decimal, so computing the maximum raises \<open>ValueError\<close> before anything is
  fetched. With \<open>"x"\<close> in its place the listing is fetched once, with page size 2.
\<close>

theorem superscript_digit_skips_fetch:
  "index_like ''1''
   \<and> int_py ''1'' = Inr 1
   \<and> index_like [CHR 0xB2]
   \<and> \<not> list_all isdecimal_char [CHR 0xB2]
   \<and> resolve_refs (mailbox snapshot4) [''1'', [CHR 0xB2]] [] = (Inl (ValueError [CHR 0xB2]), [])
   \<and> resolve_refs (mailbox snapshot4) [''1'', ''x''] [] = (Inr [''idB'', ''x''], [Get_messages 2 ''0''])"
  by code_simp

section \<open>The label that star applies\<close>




section \<open>Order and multiplicity of the resolved identifiers\<close>

lemma lookup_ref_same:
  assumes "map (lookup_ref inbox) refs = map Some ids"
    and "i < length refs" and "j < length refs" and "refs ! i = refs ! j"
  shows "ids ! i = ids ! j"
proof -
  from assms(1) have len: "length ids = length refs"
    by (metis length_map)
  from assms(1,2) len have "lookup_ref inbox (refs ! i) = Some (ids ! i)"
    by (metis nth_map)
  moreover from assms(1,3) len have "lookup_ref inbox (refs ! j) = Some (ids ! j)"
    by (metis nth_map)
  ultimately show ?thesis using assms(4) by simp
qed

lemma resolve_loop_cached_in_range:
  "index_values rest = Inr ws \<Longrightarrow> list_all (\<lambda>v. v < length inbox) ws \<Longrightarrow>
     \<exists>new. resolve_loop E refs rest (Some inbox) ids tr = (Inr (ids @ new), tr)
        \<and> map (lookup_ref inbox) rest = map Some new"
proof (induction rest arbitrary: ids ws)
  case Nil
  then show ?case by simp
next
  case (Cons r rest)
  show ?case
  proof (cases "index_like r")
    case False
    with Cons.prems have "index_values rest = Inr ws" by simp
    from Cons.IH [OF this Cons.prems(2), of "ids @ [r]"] obtain new where
      "resolve_loop E refs rest (Some inbox) (ids @ [r]) tr = (Inr ((ids @ [r]) @ new), tr)"
      "map (lookup_ref inbox) rest = map Some new"
      by blast
    with False have "resolve_loop E refs (r # rest) (Some inbox) ids tr = (Inr (ids @ (r # new)), tr)
        \<and> map (lookup_ref inbox) (r # rest) = map Some (r # new)"
      by (simp add: lookup_ref_def)
    then show ?thesis by blast
  next
    case True
    from index_values_index [OF True Cons.prems(1)] obtain w ws' where
      w: "int_py r = Inr w" "index_values rest = Inr ws'" "ws = w # ws'"
      by blast
    with Cons.prems(2) have inr: "w < length inbox" and rest: "list_all (\<lambda>v. v < length inbox) ws'"
      by simp_all
    from Cons.IH [OF w(2) rest, of "ids @ [message_id (inbox ! w)]"] obtain new where
      "resolve_loop E refs rest (Some inbox) (ids @ [message_id (inbox ! w)]) tr
         = (Inr ((ids @ [message_id (inbox ! w)]) @ new), tr)"
      "map (lookup_ref inbox) rest = map Some new"
      by blast
    with True w inr have "resolve_loop E refs (r # rest) (Some inbox) ids tr
          = (Inr (ids @ (message_id (inbox ! w) # new)), tr)
        \<and> map (lookup_ref inbox) (r # rest) = map Some (message_id (inbox ! w) # new)"
      by (simp add: lookup_ref_def)
    then show ?thesis by blast
  qed
qed

lemma resolve_loop_uncached_in_range:
  "index_values rest = Inr ws \<Longrightarrow> list_all (\<lambda>v. v < length inbox) ws \<Longrightarrow> ws \<noteq> [] \<Longrightarrow>
   fill_inbox_cache E refs None tr = (Inr inbox, tr') \<Longrightarrow>
     \<exists>new. resolve_loop E refs rest None ids tr = (Inr (ids @ new), tr')
        \<and> map (lookup_ref inbox) rest = map Some new"
proof (induction rest arbitrary: ids)
  case Nil
  then show ?case by simp
next
  case (Cons r rest)
  show ?case
  proof (cases "index_like r")
    case False
    with Cons.prems have "index_values rest = Inr ws" by simp
    from Cons.IH [OF this Cons.prems(2,3,4), of "ids @ [r]"] obtain new where
      "resolve_loop E refs rest None (ids @ [r]) tr = (Inr ((ids @ [r]) @ new), tr')"
      "map (lookup_ref inbox) rest = map Some new"
      by blast
    with False have "resolve_loop E refs (r # rest) None ids tr = (Inr (ids @ (r # new)), tr')
        \<and> map (lookup_ref inbox) (r # rest) = map Some (r # new)"
      by (simp add: lookup_ref_def)
    then show ?thesis by blast
  next
    case True
    from index_values_index [OF True Cons.prems(1)] obtain w ws' where
      w: "int_py r = Inr w" "index_values rest = Inr ws'" "ws = w # ws'"
      by blast
    with Cons.prems(2) have inr: "w < length inbox" and rest: "list_all (\<lambda>v. v < length inbox) ws'"
      by simp_all
    from resolve_loop_cached_in_range [OF w(2) rest, of E refs "ids @ [message_id (inbox ! w)]" tr']
    obtain new where
      "resolve_loop E refs rest (Some inbox) (ids @ [message_id (inbox ! w)]) tr'
         = (Inr ((ids @ [message_id (inbox ! w)]) @ new), tr')"
      "map (lookup_ref inbox) rest = map Some new"
      by blast
    with True w inr Cons.prems(4) have "resolve_loop E refs (r # rest) None ids tr
          = (Inr (ids @ (message_id (inbox ! w) # new)), tr')
        \<and> map (lookup_ref inbox) (r # rest) = map Some (message_id (inbox ! w) # new)"
      by (simp add: lookup_ref_def)
    then show ?thesis by blast
  qed
qed

lemma resolve_refs_in_range:
  assumes vals: "index_values refs = Inr vs" and ne: "vs \<noteq> []"
    and fetched: "respond E tr (Get_messages (Max (set vs) + 1) ''0'') = Returns inbox"
    and inr: "list_all (\<lambda>v. v < length inbox) vs"
  shows "\<exists>ids. resolve_refs E refs tr = (Inr ids, tr @ [Get_messages (Max (set vs) + 1) ''0''])
     \<and> map (lookup_ref inbox) refs = map Some ids"
proof -
  from fill_inbox_cache_fetch [OF vals ne, of E tr] fetched
  have "fill_inbox_cache E refs None tr = (Inr inbox, tr @ [Get_messages (Max (set vs) + 1) ''0''])"
    by simp
  from resolve_loop_uncached_in_range [OF vals inr ne this, of "[]"]
  show ?thesis by (simp add: resolve_refs_def)
qed

lemma resolve_refs_success_shape:
  assumes "resolve_refs E refs tr = (Inr ids, tr')"
  shows "length ids = length refs
     \<and> (\<forall>i j. i < length refs \<and> j < length refs \<and> refs ! i = refs ! j \<longrightarrow> ids ! i = ids ! j)
     \<and> ((filter index_like refs = [] \<and> ids = refs \<and> tr' = tr) \<or>
        (\<exists>n inbox. respond E tr (Get_messages n ''0'') = Returns inbox
           \<and> tr' = tr @ [Get_messages n ''0'']
           \<and> map (lookup_ref inbox) refs = map Some ids))"
proof -
  from assms have "resolve_loop E refs refs None [] tr = (Inr ids, tr')"
    by (simp add: resolve_refs_def)
  from resolve_loop_uncached_success [OF this]
  have shape: "(filter index_like refs = [] \<and> ids = refs \<and> tr' = tr) \<or>
        (\<exists>n inbox. respond E tr (Get_messages n ''0'') = Returns inbox
           \<and> tr' = tr @ [Get_messages n ''0'']
           \<and> map (lookup_ref inbox) refs = map Some ids)"
    by simp
  then show ?thesis
  proof
    assume "filter index_like refs = [] \<and> ids = refs \<and> tr' = tr"
    then show ?thesis by simp
  next
    assume h: "\<exists>n inbox. respond E tr (Get_messages n ''0'') = Returns inbox
           \<and> tr' = tr @ [Get_messages n ''0'']
           \<and> map (lookup_ref inbox) refs = map Some ids"
    then obtain inbox where m: "map (lookup_ref inbox) refs = map Some ids"
      by blast
    then have "length ids = length refs" by (metis length_map)
    moreover have "\<forall>i j. i < length refs \<and> j < length refs \<and> refs ! i = refs ! j \<longrightarrow> ids ! i = ids ! j"
      using lookup_ref_same [OF m] by blast
    ultimately show ?thesis using h by blast
  qed
qed

text \<open>
  Claim C3. When every index-like reference of the batch converts, the listing is
  fetched and every index value is below its length, \<open>_resolve_refs\<close> returns, after that
  one fetch, the list that holds, position by position, the reference itself where it is
  not index-like and the identifier at its position in the listing where it is; a batch
  without index-like references is returned as it is, without a fetch. Whenever
  \<open>_resolve_refs\<close> returns, its result has the length of the batch, equal references
  have equal identifiers, and the result is one of these two.
\<close>

theorem resolve_refs_order_multiplicity:
  "(\<forall>vs inbox. index_values refs = Inr vs \<and> vs \<noteq> []
        \<and> respond E tr (Get_messages (Max (set vs) + 1) ''0'') = Returns inbox
        \<and> list_all (\<lambda>v. v < length inbox) vs
      \<longrightarrow> (\<exists>ids. resolve_refs E refs tr
                   = (Inr ids, tr @ [Get_messages (Max (set vs) + 1) ''0''])
             \<and> map (lookup_ref inbox) refs = map Some ids))
   \<and> (filter index_like refs = [] \<longrightarrow> resolve_refs E refs tr = (Inr refs, tr))
   \<and> (\<forall>ids tr'. resolve_refs E refs tr = (Inr ids, tr') \<longrightarrow>
        length ids = length refs
        \<and> (\<forall>i j. i < length refs \<and> j < length refs \<and> refs ! i = refs ! j \<longrightarrow> ids ! i = ids ! j)
        \<and> ((filter index_like refs = [] \<and> ids = refs \<and> tr' = tr) \<or>
           (\<exists>n inbox. respond E tr (Get_messages n ''0'') = Returns inbox
              \<and> tr' = tr @ [Get_messages n ''0'']
              \<and> map (lookup_ref inbox) refs = map Some ids)))"
proof -
  have a: "\<forall>vs inbox. index_values refs = Inr vs \<and> vs \<noteq> []
        \<and> respond E tr (Get_messages (Max (set vs) + 1) ''0'') = Returns inbox
        \<and> list_all (\<lambda>v. v < length inbox) vs
      \<longrightarrow> (\<exists>ids. resolve_refs E refs tr
                   = (Inr ids, tr @ [Get_messages (Max (set vs) + 1) ''0''])
             \<and> map (lookup_ref inbox) refs = map Some ids)"
    using resolve_refs_in_range by blast
  have b: "filter index_like refs = [] \<longrightarrow> resolve_refs E refs tr = (Inr refs, tr)"
    using resolve_loop_no_index [of refs E refs None "[]" tr] by (simp add: resolve_refs_def)
  have c: "\<forall>ids tr'. resolve_refs E refs tr = (Inr ids, tr') \<longrightarrow>
        length ids = length refs
        \<and> (\<forall>i j. i < length refs \<and> j < length refs \<and> refs ! i = refs ! j \<longrightarrow> ids ! i = ids ! j)
        \<and> ((filter index_like refs = [] \<and> ids = refs \<and> tr' = tr) \<or>
           (\<exists>n inbox. respond E tr (Get_messages n ''0'') = Returns inbox
              \<and> tr' = tr @ [Get_messages n ''0'']
              \<and> map (lookup_ref inbox) refs = map Some ids))"
    using resolve_refs_success_shape by blast
  from a b c show ?thesis by (intro conjI)
qed

text \<open>
  The spec's examples: \<open>["3","3","abc123"]\<close> and \<open>["0","2","xyz"]\<close> against the
  four-message inbox.
\<close>

theorem resolve_refs_order_multiplicity_witness:
  "resolve_refs (mailbox snapshot4) [''3'', ''3'', ''abc123''] []
     = (Inr [''idD'', ''idD'', ''abc123''], [Get_messages 4 ''0''])
   \<and> resolve_refs (mailbox snapshot4) [''0'', ''2'', ''xyz''] []
     = (Inr [''idA'', ''idC'', ''xyz''], [Get_messages 3 ''0''])"
proof -
  have v1: "index_values [''3'', ''3'', ''abc123''] = Inr [3, 3]" by code_simp
  have f1: "respond (mailbox snapshot4) [] (Get_messages (Max (set [3, 3]) + 1) ''0'')
      = Returns snapshot4"
    by (simp add: mailbox_def mailbox_failing_def snapshot4_def)
  have i1: "list_all (\<lambda>v. v < length snapshot4) [3, 3]" by (simp add: snapshot4_def)
  have m1: "map (lookup_ref snapshot4) [''3'', ''3'', ''abc123'']
      = map Some [''idD'', ''idD'', ''abc123'']" by code_simp
  have v2: "index_values [''0'', ''2'', ''xyz''] = Inr [0, 2]" by code_simp
  have f2: "respond (mailbox snapshot4) [] (Get_messages (Max (set [0, 2]) + 1) ''0'')
      = Returns (take 3 snapshot4)"
    by (simp add: mailbox_def mailbox_failing_def snapshot4_def)
  have i2: "list_all (\<lambda>v. v < length (take 3 snapshot4)) [0, 2]" by (simp add: snapshot4_def)
  have m2: "map (lookup_ref (take 3 snapshot4)) [''0'', ''2'', ''xyz'']
      = map Some [''idA'', ''idC'', ''xyz'']" by code_simp
  from resolve_refs_order_multiplicity [of "[''3'', ''3'', ''abc123'']" "mailbox snapshot4" "[]"]
    v1 f1 i1
  obtain ids1 where
    r1: "resolve_refs (mailbox snapshot4) [''3'', ''3'', ''abc123''] []
        = (Inr ids1, [] @ [Get_messages (Max (set [3, 3]) + 1) ''0''])"
    and l1: "map (lookup_ref snapshot4) [''3'', ''3'', ''abc123''] = map Some ids1"
    by blast
  from resolve_refs_order_multiplicity [of "[''0'', ''2'', ''xyz'']" "mailbox snapshot4" "[]"]
    v2 f2 i2
  obtain ids2 where
    r2: "resolve_refs (mailbox snapshot4) [''0'', ''2'', ''xyz''] []
        = (Inr ids2, [] @ [Get_messages (Max (set [0, 2]) + 1) ''0''])"
    and l2: "map (lookup_ref (take 3 snapshot4)) [''0'', ''2'', ''xyz''] = map Some ids2"
    by blast
  from l1 m1 have "ids1 = [''idD'', ''idD'', ''abc123'']"
    by (metis inj_Some inj_map_eq_map)
  moreover from l2 m2 have "ids2 = [''idA'', ''idC'', ''xyz'']"
    by (metis inj_Some inj_map_eq_map)
  ultimately show ?thesis using r1 r2 by simp
qed

end
